theory Spec2Isabelle
  imports Complex_Main "HOL-Library.Sublist"
begin

section \<open>Python values\<close>

text \<open>
  A Python \<open>str\<close> is a sequence of Unicode code points and \<open>len\<close> counts code points,
  so a string is modelled as the list of its code points. \<open>lit\<close> turns an ASCII literal
  of the source into such a list.
\<close>

type_synonym pystr = "nat list"

definition lit :: "string \<Rightarrow> pystr" where
  "lit s = map of_char s"

text \<open>
  The value \<open>json.loads\<close> returns for one line. A JSON object is a Python \<open>dict\<close>; it is
  kept as the list of its items, in which every key occurs once. The code never looks
  into a number.
\<close>

datatype json =
    JNull
  | JBool bool
  | JNum rat
  | JStr pystr
  | JArr "json list"
  | JObj "(pystr \<times> json) list"

type_synonym dict = "(pystr \<times> json) list"

datatype error = AttributeError | TypeError

text \<open>\<open>d.get(k, dflt)\<close> on a dict.\<close>

definition dict_get :: "dict \<Rightarrow> pystr \<Rightarrow> json \<Rightarrow> json" where
  "dict_get d k dflt = (case map_of d k of Some v \<Rightarrow> v | None \<Rightarrow> dflt)"

text \<open>
  \<open>str.strip()\<close> removes leading and trailing whitespace; the whitespace code points
  are those of \<open>str.isspace\<close>.
\<close>

definition is_space :: "nat \<Rightarrow> bool" where
  "is_space c \<longleftrightarrow>
     (9 \<le> c \<and> c \<le> 13) \<or> (28 \<le> c \<and> c \<le> 32) \<or> c = 133 \<or> c = 160 \<or> c = 5760 \<or>
     (8192 \<le> c \<and> c \<le> 8202) \<or> c = 8232 \<or> c = 8233 \<or> c = 8239 \<or> c = 8287 \<or> c = 12288"

definition strip :: "pystr \<Rightarrow> pystr" where
  "strip s = rev (dropWhile is_space (rev (dropWhile is_space s)))"

text \<open>\<open>sub in text\<close> for two strings.\<close>

fun contains :: "pystr \<Rightarrow> pystr \<Rightarrow> bool" where
  "contains sub [] = (sub = [])"
| "contains sub (c # cs) = (prefix sub (c # cs) \<or> contains sub cs)"

text \<open>\<open>sep.join(parts)\<close> for a list of strings.\<close>

fun join :: "pystr \<Rightarrow> pystr list \<Rightarrow> pystr" where
  "join sep [] = []"
| "join sep [s] = s"
| "join sep (s # t # ts) = s @ sep @ join sep (t # ts)"

text \<open>
  \<open>str.join\<close> raises \<open>TypeError\<close> when an item is not a string: the items of a list of
  JSON values, as strings.
\<close>

fun str_items :: "json list \<Rightarrow> error + pystr list" where
  "str_items [] = Inr []"
| "str_items (JStr s # ps) =
     (case str_items ps of Inl e \<Rightarrow> Inl e | Inr ss \<Rightarrow> Inr (s # ss))"
| "str_items (_ # ps) = Inl TypeError"

section \<open>The log parser\<close>

text \<open>
  \<open>extract_text\<close>: the text of a message, without its tool blocks. \<open>text_parts\<close> is the
  loop that collects \<open>block.get("text", "")\<close> of every dict block of type \<open>text\<close>.
\<close>

fun text_parts :: "json list \<Rightarrow> json list" where
  "text_parts [] = []"
| "text_parts (JObj block # blocks) =
     (if dict_get block (lit ''type'') JNull = JStr (lit ''text'')
      then dict_get block (lit ''text'') (JStr []) # text_parts blocks
      else text_parts blocks)"
| "text_parts (_ # blocks) = text_parts blocks"

definition extract_text :: "dict \<Rightarrow> error + pystr" where
  "extract_text msg =
     (case dict_get msg (lit ''content'') (JStr []) of
        JStr content \<Rightarrow> Inr content
      | JArr content \<Rightarrow>
          (case str_items (text_parts content) of
             Inl e \<Rightarrow> Inl e
           | Inr parts \<Rightarrow> Inr (join [10] parts))
      | _ \<Rightarrow> Inr [])"

text \<open>\<open>has_tool_use\<close>: whether the content list of a message has a \<open>tool_use\<close> block.\<close>

fun is_tool_use :: "json \<Rightarrow> bool" where
  "is_tool_use (JObj block) = (dict_get block (lit ''type'') JNull = JStr (lit ''tool_use''))"
| "is_tool_use _ = False"

definition has_tool_use :: "dict \<Rightarrow> bool" where
  "has_tool_use msg =
     (case dict_get msg (lit ''content'') (JArr []) of
        JArr content \<Rightarrow> list_ex is_tool_use content
      | _ \<Rightarrow> False)"

text \<open>
  A line of the log is the result of \<open>json.loads\<close> on it: \<open>None\<close> when it raises
  \<open>JSONDecodeError\<close> (the line is skipped), the parsed value otherwise. Calling \<open>.get\<close> on
  a parsed value that is not a dict raises \<open>AttributeError\<close>, which \<open>parse_jsonl\<close> does not
  catch.
\<close>

type_synonym line = "json option"

text \<open>The first loop: the positions of the \<open>compact_boundary\<close> records, in order.\<close>

fun find_boundaries :: "line list \<Rightarrow> nat \<Rightarrow> nat list \<Rightarrow> error + nat list" where
  "find_boundaries [] i compact_boundaries = Inr compact_boundaries"
| "find_boundaries (None # ls) i compact_boundaries =
     find_boundaries ls (Suc i) compact_boundaries"
| "find_boundaries (Some (JObj obj) # ls) i compact_boundaries =
     find_boundaries ls (Suc i)
       (if dict_get obj (lit ''type'') JNull = JStr (lit ''system'') \<and>
           dict_get obj (lit ''subtype'') JNull = JStr (lit ''compact_boundary'')
        then compact_boundaries @ [i] else compact_boundaries)"
| "find_boundaries (Some _ # ls) i compact_boundaries = Inl AttributeError"

text \<open>
  The second loop: the compaction summary is the text of the first user message, among
  the lines at the given positions, that holds the marker phrase; the empty string when
  there is none.
\<close>

definition summary_marker :: pystr where
  "summary_marker = lit ''continued from a previous conversation''"

fun find_summary :: "line list \<Rightarrow> nat list \<Rightarrow> error + pystr" where
  "find_summary lines [] = Inr []"
| "find_summary lines (i # is) =
     (case lines ! i of
        None \<Rightarrow> find_summary lines is
      | Some (JObj obj) \<Rightarrow>
          (case dict_get obj (lit ''message'') (JObj []) of
             JObj msg \<Rightarrow>
               if dict_get msg (lit ''role'') JNull = JStr (lit ''user'')
               then (case extract_text msg of
                       Inl e \<Rightarrow> Inl e
                     | Inr text \<Rightarrow>
                         if contains summary_marker text then Inr text
                         else find_summary lines is)
               else find_summary lines is
           | _ \<Rightarrow> Inl AttributeError)
      | Some _ \<Rightarrow> Inl AttributeError)"

text \<open>
  The body of the third loop, for one line: \<open>Inr None\<close> when the line is skipped
  (\<open>continue\<close>), \<open>Inr (Some turn)\<close> when a turn is appended. An f-string renders a
  string role as it is; \<open>fmt\<close> is Python's rendering of any other value.
\<close>

definition truncation_marker :: pystr where
  "truncation_marker = 10 # lit ''[...truncated...]''"

definition format_role :: "(json \<Rightarrow> pystr) \<Rightarrow> json \<Rightarrow> pystr" where
  "format_role fmt role = (case role of JStr s \<Rightarrow> s | _ \<Rightarrow> fmt role)"

definition truncate_text :: "nat \<Rightarrow> pystr \<Rightarrow> pystr" where
  "truncate_text max_len text =
     (if length text > max_len then take max_len text @ truncation_marker else text)"

definition turn :: "(json \<Rightarrow> pystr) \<Rightarrow> line \<Rightarrow> error + pystr option" where
  "turn fmt l =
     (case l of
        None \<Rightarrow> Inr None
      | Some (JObj obj) \<Rightarrow>
          (let entry_type = dict_get obj (lit ''type'') (JStr []) in
           if entry_type \<noteq> JStr (lit ''user'') \<and> entry_type \<noteq> JStr (lit ''assistant'')
           then Inr None
           else
             (case dict_get obj (lit ''message'') (JObj []) of
                JObj msg \<Rightarrow>
                  (let role = dict_get msg (lit ''role'') entry_type in
                   if role = JStr (lit ''assistant'') \<and> has_tool_use msg then Inr None
                   else
                     (case extract_text msg of
                        Inl e \<Rightarrow> Inl e
                      | Inr text \<Rightarrow>
                          if strip text = [] then Inr None
                          else if role = JStr (lit ''user'') \<and> length text < 10 then Inr None
                          else
                            (let max_len = (if role = JStr (lit ''user'') then 2000 else 2000)
                             in Inr (Some (lit ''['' @ format_role fmt role @ lit '']: '' @
                                           truncate_text max_len text)))))
              | _ \<Rightarrow> Inl AttributeError))
      | Some _ \<Rightarrow> Inl AttributeError)"

fun collect :: "(json \<Rightarrow> pystr) \<Rightarrow> line list \<Rightarrow> nat list \<Rightarrow> pystr list \<Rightarrow> error + pystr list" where
  "collect fmt lines [] conversation = Inr conversation"
| "collect fmt lines (i # is) conversation =
     (case turn fmt (lines ! i) of
        Inl e \<Rightarrow> Inl e
      | Inr None \<Rightarrow> collect fmt lines is conversation
      | Inr (Some t) \<Rightarrow> collect fmt lines is (conversation @ [t]))"

text \<open>
  \<open>parse_jsonl\<close> on the lines of the log: \<open>Inr None\<close> is the pair \<open>(None, None)\<close> returned
  when there is no compaction, \<open>Inr (Some (compaction_summary, conversation))\<close> the
  normal return, \<open>Inl e\<close> an exception that leaves the function. \<open>start_idx\<close> is the
  start of the range the third loop reads.
\<close>

definition start_idx :: "nat list \<Rightarrow> nat" where
  "start_idx compact_boundaries =
     (if length compact_boundaries \<ge> 2
      then compact_boundaries ! (length compact_boundaries - 2)
      else 0)"

definition parse_jsonl :: "(json \<Rightarrow> pystr) \<Rightarrow> line list \<Rightarrow> error + (pystr \<times> pystr list) option" where
  "parse_jsonl fmt lines =
     (case find_boundaries lines 0 [] of
        Inl e \<Rightarrow> Inl e
      | Inr compact_boundaries \<Rightarrow>
          if compact_boundaries = [] then Inr None
          else
            (let last_boundary = last compact_boundaries in
             case find_summary lines
                    [last_boundary + 1 ..< min (last_boundary + 5) (length lines)] of
               Inl e \<Rightarrow> Inl e
             | Inr compaction_summary \<Rightarrow>
                 (case collect fmt lines [start_idx compact_boundaries ..< last_boundary] [] of
                    Inl e \<Rightarrow> Inl e
                  | Inr conversation \<Rightarrow> Inr (Some (compaction_summary, conversation)))))"

section \<open>The pipeline\<close>

text \<open>
  The files a run touches, by their role for the session and log of the run:
  \<open>HANDOVER-{session}.md\<close> and \<open>HANDOVER-{session}.error.log\<close> beside the log, the
  status file and the readiness marker under \<open>~/.claude\<close>, and the scratch directory
  of \<open>tempfile.mkdtemp\<close>. A file is \<open>None\<close> while it does not exist. The status file
  holds a JSON object with fixed keys, kept as a record. \<open>clock\<close> counts the readings of
  \<open>datetime.now()\<close> so far, and \<open>trace\<close> lists the effects of the run in the order
  they happen. Writing a file is taken to succeed.
\<close>

record status =
  phase :: pystr
  step :: nat
  total :: nat
  session_id :: pystr
  updated_at :: pystr
  error :: pystr

datatype prompt = ExtractPrompt | MergePrompt

datatype event =
    WroteStatus pystr
  | WroteHandover pystr
  | WroteErrorLog pystr
  | WroteReadyMarker
  | MadeWorkDir
  | WroteWorkFile string
  | CalledClaude prompt nat
  | RemovedWorkDir

record world =
  handover_file :: "pystr option"
  error_log_file :: "pystr option"
  status_file :: "status option"
  ready_marker_file :: "pystr option"
  work_dir :: "(string \<rightharpoonup> pystr) option"
  clock :: nat
  trace :: "event list"

text \<open>
  What the run does not decide: the rendering \<open>fmt\<close> of a role that is not a string,
  the time \<open>now n\<close> that the \<open>n\<close>-th reading of the clock shows (in ISO format), the
  parsed lines \<open>transcript p\<close> of the log at path \<open>p\<close> (\<open>None\<close> when there is no such
  file), and what \<open>subprocess.run\<close> does with each of the two prompts: the process
  completes with a return code and its standard output, or the call raises. The text of
  a prompt is fixed but for the paths of the two scratch files it names, so a prompt is
  kept as which of the two it is; a call is recorded in the trace with its timeout.
\<close>

datatype failure = TimeoutExpired | OtherException pystr pystr

datatype run_result = Completed int pystr | Raised failure

record env =
  fmt :: "json \<Rightarrow> pystr"
  now :: "nat \<Rightarrow> pystr"
  transcript :: "pystr \<Rightarrow> line list option"
  run :: "prompt \<Rightarrow> run_result"

definition write_status :: "env \<Rightarrow> pystr \<Rightarrow> nat \<Rightarrow> nat \<Rightarrow> pystr \<Rightarrow> pystr \<Rightarrow> world \<Rightarrow> world" where
  "write_status e ph st tot sid err w =
     w\<lparr>status_file :=
         Some \<lparr>phase = ph, step = st, total = tot, session_id = sid,
               updated_at = now e (clock w), error = err\<rparr>,
       clock := Suc (clock w),
       trace := trace w @ [WroteStatus ph]\<rparr>"

text \<open>
  \<open>error_log.write_text(f"{datetime.now().isoformat()}{msg}")\<close>: \<open>write_text\<close> opens
  the file for writing, so the new text replaces what the file held.
\<close>

definition write_error_log :: "env \<Rightarrow> pystr \<Rightarrow> world \<Rightarrow> world" where
  "write_error_log e msg w =
     w\<lparr>error_log_file := Some (now e (clock w) @ msg),
       clock := Suc (clock w),
       trace := trace w @ [WroteErrorLog (now e (clock w) @ msg)]\<rparr>"

definition write_handover :: "pystr \<Rightarrow> world \<Rightarrow> world" where
  "write_handover text w =
     w\<lparr>handover_file := Some text, trace := trace w @ [WroteHandover text]\<rparr>"

definition write_ready_marker :: "pystr \<Rightarrow> world \<Rightarrow> world" where
  "write_ready_marker sid w =
     w\<lparr>ready_marker_file := Some sid, trace := trace w @ [WroteReadyMarker]\<rparr>"

definition mkdtemp :: "world \<Rightarrow> world" where
  "mkdtemp w = w\<lparr>work_dir := Some Map.empty, trace := trace w @ [MadeWorkDir]\<rparr>"

definition rmtree :: "world \<Rightarrow> world" where
  "rmtree w = w\<lparr>work_dir := None, trace := trace w @ [RemovedWorkDir]\<rparr>"

text \<open>
  A file of the scratch directory. \<open>main\<close> writes there only between \<open>mkdtemp\<close> and
  \<open>rmtree\<close>, while the directory exists.
\<close>

definition write_work_file :: "string \<Rightarrow> pystr \<Rightarrow> world \<Rightarrow> world" where
  "write_work_file name text w =
     w\<lparr>work_dir := (case work_dir w of None \<Rightarrow> None | Some d \<Rightarrow> Some (d(name \<mapsto> text))),
       trace := trace w @ [WroteWorkFile name]\<rparr>"

text \<open>
  \<open>call_claude\<close>: the stripped output when the process returns 0 and printed something
  other than whitespace, \<open>None\<close> otherwise; an exception of \<open>subprocess.run\<close> passes
  through.
\<close>

definition call_claude :: "env \<Rightarrow> prompt \<Rightarrow> nat \<Rightarrow> world \<Rightarrow> (failure + pystr option) \<times> world" where
  "call_claude e p timeout w =
     (case run e p of
        Raised x \<Rightarrow> Inl x
      | Completed returncode stdout \<Rightarrow>
          if returncode = 0 \<and> strip stdout \<noteq> [] then Inr (Some (strip stdout)) else Inr None,
      w\<lparr>trace := trace w @ [CalledClaude p timeout]\<rparr>)"

definition pass1_extract :: "env \<Rightarrow> pystr \<Rightarrow> pystr list \<Rightarrow> world \<Rightarrow> (failure + pystr option) \<times> world" where
  "pass1_extract e compaction_summary conversation w =
     (let transcript_text = join [10, 10] conversation;
          transcript_text =
            (if length transcript_text > 150000
             then drop (length transcript_text - 150000) transcript_text
             else transcript_text);
          compaction_summary =
            (if length compaction_summary > 20000
             then take 20000 compaction_summary @ truncation_marker
             else compaction_summary)
      in call_claude e ExtractPrompt 180
           (write_work_file ''compaction_summary.txt'' compaction_summary
             (write_work_file ''transcript.txt'' transcript_text w)))"

definition pass2_merge :: "env \<Rightarrow> pystr \<Rightarrow> pystr \<Rightarrow> world \<Rightarrow> (failure + pystr option) \<times> world" where
  "pass2_merge e existing_handover new_fragment w =
     call_claude e MergePrompt 120
       (write_work_file ''new_fragment.md'' new_fragment
         (write_work_file ''existing_handover.md'' existing_handover w))"

text \<open>
  The truth value of a \<open>str | None\<close>: \<open>None\<close> and the empty string are false. The result
  is the string when it is true.
\<close>

definition truthy :: "pystr option \<Rightarrow> pystr option" where
  "truthy r = (case r of None \<Rightarrow> None | Some s \<Rightarrow> if s = [] then None else Some s)"

text \<open>
  The body of the \<open>try\<close> statement of \<open>main\<close>: the world it leaves, with the exception
  that left it, if any.
\<close>

definition try_body :: "env \<Rightarrow> pystr \<Rightarrow> pystr \<Rightarrow> pystr \<Rightarrow> pystr list \<Rightarrow> world \<Rightarrow> failure option \<times> world" where
  "try_body e sid existing_handover compaction_summary conversation w =
     (let has_merge = (existing_handover \<noteq> []);
          w = write_status e (lit ''pass1'') (if has_merge then 1 else 0)
                (if has_merge then 2 else 0) sid [] w
      in case pass1_extract e compaction_summary conversation w of
           (Inl x, w) \<Rightarrow> (Some x, w)
         | (Inr r, w) \<Rightarrow>
             (case truthy r of
                None \<Rightarrow>
                  (None,
                   write_error_log e (lit '': Pass 1 failed (no output from claude -p)'' @ [10])
                     (write_status e (lit ''error'') 0 0 sid (lit ''Pass 1 returned no output'') w))
              | Some new_fragment \<Rightarrow>
                  (case (if existing_handover \<noteq> []
                         then (case pass2_merge e existing_handover new_fragment
                                      (write_status e (lit ''pass2'') 2 2 sid [] w) of
                                 (Inl x, w) \<Rightarrow> (Some x, w)
                               | (Inr m, w) \<Rightarrow>
                                   (case truthy m of
                                      Some merged \<Rightarrow> (None, write_handover merged w)
                                    | None \<Rightarrow>
                                        (None,
                                         write_error_log e
                                           (lit '': Pass 2 failed, saved Pass 1 output only'' @ [10])
                                           (write_handover new_fragment w))))
                         else (None, write_handover new_fragment w)) of
                     (Some x, w) \<Rightarrow> (Some x, w)
                   | (None, w) \<Rightarrow>
                       (None, write_ready_marker sid (write_status e (lit ''done'') 0 0 sid [] w)))))"

text \<open>The two \<open>except\<close> clauses.\<close>

definition handle :: "env \<Rightarrow> pystr \<Rightarrow> failure option \<times> world \<Rightarrow> world" where
  "handle e sid r =
     (case r of
        (None, w) \<Rightarrow> w
      | (Some TimeoutExpired, w) \<Rightarrow>
          write_error_log e (lit '': claude -p timed out'' @ [10])
            (write_status e (lit ''error'') 0 0 sid (lit ''claude -p timed out'') w)
      | (Some (OtherException name msg), w) \<Rightarrow>
          write_error_log e (lit '': '' @ name @ lit '': '' @ msg @ [10])
            (write_status e (lit ''error'') 0 0 sid msg w))"

text \<open>
  \<open>main\<close> for the command line \<open>argv\<close>. \<open>parse_jsonl\<close> is called outside the \<open>try\<close>
  statement: an exception it raises ends the process (\<open>Inl\<close>), before anything is
  written.
\<close>

definition main :: "env \<Rightarrow> pystr list \<Rightarrow> world \<Rightarrow> error + world" where
  "main e argv w =
     (if length argv < 3 then Inr w
      else
        (let sid = argv ! 1; transcript_path = argv ! 2 in
         case transcript e transcript_path of
           None \<Rightarrow> Inr w
         | Some lines \<Rightarrow>
             (let existing_handover = (case handover_file w of None \<Rightarrow> [] | Some text \<Rightarrow> text) in
              case parse_jsonl (fmt e) lines of
                Inl x \<Rightarrow> Inl x
              | Inr None \<Rightarrow> Inr w
              | Inr (Some (compaction_summary, conversation)) \<Rightarrow>
                  if conversation = [] then Inr w
                  else
                    Inr (rmtree
                          (handle e sid
                            (try_body e sid existing_handover compaction_summary conversation
                              (mkdtemp w)))))))"

text \<open>
  The run after the log is parsed: scratch directory, \<open>try\<close> statement with its handlers,
  and the \<open>finally\<close> clause.
\<close>

abbreviation (input) pipeline :: "env \<Rightarrow> pystr \<Rightarrow> pystr \<Rightarrow> pystr \<Rightarrow> pystr list \<Rightarrow> world \<Rightarrow> world" where
  "pipeline e sid ex s c w \<equiv> rmtree (handle e sid (try_body e sid ex s c (mkdtemp w)))"

text \<open>What the handlers write to the error log after the time, for each exception.\<close>

definition failure_entry :: "failure \<Rightarrow> pystr" where
  "failure_entry x =
     (case x of
        TimeoutExpired \<Rightarrow> lit '': claude -p timed out'' @ [10]
      | OtherException name msg \<Rightarrow> lit '': '' @ name @ lit '': '' @ msg @ [10])"

section \<open>Records and boundaries of a log\<close>

text \<open>
  A log holds one JSON object per line; a line that is no JSON is skipped. \<open>is_record\<close>
  holds of a line that is an object or is skipped. \<open>is_compact_boundary\<close> is the test of
  the first loop of \<open>parse_jsonl\<close>, and \<open>boundary_positions\<close> lists the positions of the
  lines that pass it, in order.
\<close>

fun is_record :: "line \<Rightarrow> bool" where
  "is_record None = True"
| "is_record (Some (JObj obj)) = True"
| "is_record (Some _) = False"

fun is_compact_boundary :: "line \<Rightarrow> bool" where
  "is_compact_boundary (Some (JObj obj)) =
     (dict_get obj (lit ''type'') JNull = JStr (lit ''system'') \<and>
      dict_get obj (lit ''subtype'') JNull = JStr (lit ''compact_boundary''))"
| "is_compact_boundary _ = False"

definition boundary_positions :: "line list \<Rightarrow> nat list" where
  "boundary_positions ls = filter (\<lambda>k. is_compact_boundary (ls ! k)) [0..<length ls]"

section \<open>Sample inputs\<close>

text \<open>
  Records as they stand in a log: the boundary record of a compaction, and a message
  record of a given type and role with a given content; a log of one user message
  followed by a compaction; a command line, an environment whose two external calls end
  as given, and the files before a run.
\<close>

definition boundary_record :: line where
  "boundary_record =
     Some (JObj [(lit ''type'', JStr (lit ''system'')),
                 (lit ''subtype'', JStr (lit ''compact_boundary''))])"

definition message_record :: "string \<Rightarrow> json \<Rightarrow> line" where
  "message_record role content =
     Some (JObj [(lit ''type'', JStr (lit role)),
                 (lit ''message'', JObj [(lit ''role'', JStr (lit role)), (lit ''content'', content)])])"

definition sample_log :: "line list" where
  "sample_log = [message_record ''user'' (JStr (lit ''hello world'')), boundary_record]"

definition sample_env :: "run_result \<Rightarrow> run_result \<Rightarrow> env" where
  "sample_env r1 r2 =
     \<lparr>fmt = (\<lambda>v. lit ''None''),
      now = (\<lambda>n. lit ''2025-01-01T12:00:00''),
      transcript = (\<lambda>p. if p = lit ''log.jsonl'' then Some sample_log else None),
      run = (\<lambda>p. case p of ExtractPrompt \<Rightarrow> r1 | MergePrompt \<Rightarrow> r2)\<rparr>"

definition sample_argv :: "pystr list" where
  "sample_argv = [lit ''handover_worker.py'', lit ''s1'', lit ''log.jsonl'']"

definition sample_world :: "pystr option \<Rightarrow> pystr option \<Rightarrow> world" where
  "sample_world doc errors =
     \<lparr>handover_file = doc, error_log_file = errors, status_file = None,
      ready_marker_file = None, work_dir = None, clock = 0, trace = []\<rparr>"

section \<open>Auxiliary facts\<close>

lemma lit_eq_iff [simp]: "lit a = lit b \<longleftrightarrow> a = b"
  by (simp add: lit_def inj_def)

lemma lit_Nil [simp]: "lit s = [] \<longleftrightarrow> s = []"
  by (simp add: lit_def)

lemma length_lit [simp]: "length (lit s) = length s"
  by (simp add: lit_def)

lemma lit_append: "lit a @ lit b = lit (a @ b)" "lit a @ lit b @ r = lit (a @ b) @ r"
  by (simp_all add: lit_def)

lemma strip_id:
  assumes "s \<noteq> []" "\<not> is_space (hd s)" "\<not> is_space (last s)"
  shows "strip s = s"
proof -
  from assms obtain a t where s: "s = a # t" by (cases s) auto
  with assms have 1: "dropWhile is_space s = s" by simp
  from assms have "rev s \<noteq> []" "\<not> is_space (hd (rev s))" by (simp_all add: hd_rev)
  then have "dropWhile is_space (rev s) = rev s" by (cases "rev s") auto
  with 1 show ?thesis by (simp add: strip_def)
qed

lemma sample_turn:
  "turn f (message_record ''user'' (JStr (lit ''hello world''))) = Inr (Some (lit ''[user]: hello world''))"
  by (simp add: turn_def message_record_def dict_get_def extract_text_def has_tool_use_def
      strip_id format_role_def truncate_text_def Let_def lit_def is_space_def)

lemma sample_parse:
  "parse_jsonl f sample_log = Inr (Some ([], [lit ''[user]: hello world'']))"
proof -
  have b: "find_boundaries sample_log 0 [] = Inr [1]"
    by (simp add: sample_log_def message_record_def boundary_record_def dict_get_def)
  have n: "length sample_log = 2" "sample_log ! 0 = message_record ''user'' (JStr (lit ''hello world''))"
    by (simp_all add: sample_log_def)
  show ?thesis
    by (simp add: parse_jsonl_def b n start_idx_def sample_turn)
qed

subsection \<open>The paths of a run\<close>

lemmas io_defs = write_status_def write_error_log_def write_handover_def write_ready_marker_def
  mkdtemp_def rmtree_def write_work_file_def call_claude_def pass1_extract_def pass2_merge_def
  truthy_def try_body_def handle_def

lemma main_running:
  assumes "3 \<le> length argv" "transcript e (argv ! 2) = Some lines"
    "parse_jsonl (fmt e) lines = Inr (Some (s, c))" "c \<noteq> []"
  shows "main e argv w = Inr (pipeline e (argv ! 1)
           (case handover_file w of None \<Rightarrow> [] | Some t \<Rightarrow> t) s c w)"
  using assms by (simp add: main_def Let_def)

lemma main_cases:
  assumes "main e argv w = Inr w'"
  shows "w' = w \<or> (\<exists>ex s c. w' = pipeline e (argv ! 1) ex s c w)"
proof (cases "w' = w")
  case False
  with assms obtain ex s c where "w' = pipeline e (argv ! 1) ex s c w"
    by (auto simp add: main_def Let_def split: if_splits option.splits sum.splits prod.splits)
  then show ?thesis by blast
qed simp

lemma path_p1_raise:
  assumes "run e ExtractPrompt = Raised x"
  shows "handover_file (pipeline e sid ex s c w) = handover_file w \<and>
    error_log_file (pipeline e sid ex s c w) = Some (now e (clock w + 2) @ failure_entry x) \<and>
    ready_marker_file (pipeline e sid ex s c w) = ready_marker_file w \<and>
    trace (pipeline e sid ex s c w) =
    trace w @ [MadeWorkDir, WroteStatus (lit ''pass1''), WroteWorkFile ''transcript.txt'',
      WroteWorkFile ''compaction_summary.txt'', CalledClaude ExtractPrompt 180,
      WroteStatus (lit ''error''),
      WroteErrorLog (now e (clock w + 2) @ failure_entry x),
      RemovedWorkDir]"
  using assms by (simp add: io_defs failure_entry_def Let_def split: failure.splits)

lemma path_p1_none:
  assumes "run e ExtractPrompt = Completed rc out1" "rc \<noteq> 0 \<or> strip out1 = []"
  shows "handover_file (pipeline e sid ex s c w) = handover_file w \<and>
    error_log_file (pipeline e sid ex s c w) =
      Some (now e (clock w + 2) @ lit '': Pass 1 failed (no output from claude -p)'' @ [10]) \<and>
    ready_marker_file (pipeline e sid ex s c w) = ready_marker_file w \<and>
    trace (pipeline e sid ex s c w) =
    trace w @ [MadeWorkDir, WroteStatus (lit ''pass1''), WroteWorkFile ''transcript.txt'',
      WroteWorkFile ''compaction_summary.txt'', CalledClaude ExtractPrompt 180,
      WroteStatus (lit ''error''),
      WroteErrorLog (now e (clock w + 2) @ lit '': Pass 1 failed (no output from claude -p)'' @ [10]),
      RemovedWorkDir]"
  using assms by (auto simp add: io_defs Let_def)

lemma path_no_merge:
  assumes "run e ExtractPrompt = Completed 0 out1" "strip out1 \<noteq> []"
  shows "handover_file (pipeline e sid [] s c w) = Some (strip out1) \<and>
    error_log_file (pipeline e sid [] s c w) = error_log_file w \<and>
    status_file (pipeline e sid [] s c w) =
      Some \<lparr>phase = lit ''done'', step = 0, total = 0, session_id = sid,
             updated_at = now e (clock w + 1), error = []\<rparr> \<and>
    ready_marker_file (pipeline e sid [] s c w) = Some sid \<and>
    work_dir (pipeline e sid [] s c w) = None \<and>
    clock (pipeline e sid [] s c w) = clock w + 2 \<and>
    trace (pipeline e sid [] s c w) =
    trace w @ [MadeWorkDir, WroteStatus (lit ''pass1''), WroteWorkFile ''transcript.txt'',
      WroteWorkFile ''compaction_summary.txt'', CalledClaude ExtractPrompt 180,
      WroteHandover (strip out1), WroteStatus (lit ''done''), WroteReadyMarker,
      RemovedWorkDir]"
  using assms by (simp add: io_defs Let_def)

lemma path_p2_raise:
  assumes "run e ExtractPrompt = Completed 0 out1" "strip out1 \<noteq> []" "ex \<noteq> []"
    "run e MergePrompt = Raised x"
  shows "handover_file (pipeline e sid ex s c w) = handover_file w \<and>
    error_log_file (pipeline e sid ex s c w) = Some (now e (clock w + 3) @ failure_entry x) \<and>
    ready_marker_file (pipeline e sid ex s c w) = ready_marker_file w \<and>
    trace (pipeline e sid ex s c w) =
    trace w @ [MadeWorkDir, WroteStatus (lit ''pass1''), WroteWorkFile ''transcript.txt'',
      WroteWorkFile ''compaction_summary.txt'', CalledClaude ExtractPrompt 180,
      WroteStatus (lit ''pass2''), WroteWorkFile ''existing_handover.md'',
      WroteWorkFile ''new_fragment.md'', CalledClaude MergePrompt 120,
      WroteStatus (lit ''error''),
      WroteErrorLog (now e (clock w + 3) @ failure_entry x),
      RemovedWorkDir]"
  using assms by (simp add: io_defs failure_entry_def Let_def numeral_3_eq_3 split: failure.splits)

lemma path_p2_none:
  assumes "run e ExtractPrompt = Completed 0 out1" "strip out1 \<noteq> []" "ex \<noteq> []"
     "run e MergePrompt = Completed rc out2" "rc \<noteq> 0 \<or> strip out2 = []"
  shows "handover_file (pipeline e sid ex s c w) = Some (strip out1) \<and>
    error_log_file (pipeline e sid ex s c w) =
      Some (now e (clock w + 2) @ lit '': Pass 2 failed, saved Pass 1 output only'' @ [10]) \<and>
    status_file (pipeline e sid ex s c w) =
      Some \<lparr>phase = lit ''done'', step = 0, total = 0, session_id = sid,
             updated_at = now e (clock w + 3), error = []\<rparr> \<and>
    ready_marker_file (pipeline e sid ex s c w) = Some sid \<and>
    trace (pipeline e sid ex s c w) =
    trace w @ [MadeWorkDir, WroteStatus (lit ''pass1''), WroteWorkFile ''transcript.txt'',
      WroteWorkFile ''compaction_summary.txt'', CalledClaude ExtractPrompt 180,
      WroteStatus (lit ''pass2''), WroteWorkFile ''existing_handover.md'',
      WroteWorkFile ''new_fragment.md'', CalledClaude MergePrompt 120,
      WroteHandover (strip out1),
      WroteErrorLog (now e (clock w + 2) @ lit '': Pass 2 failed, saved Pass 1 output only'' @ [10]),
      WroteStatus (lit ''done''), WroteReadyMarker, RemovedWorkDir]"
  using assms by (auto simp add: io_defs Let_def numeral_3_eq_3)

lemma path_p2_merged:
  assumes "run e ExtractPrompt = Completed 0 out1" "strip out1 \<noteq> []" "ex \<noteq> []"
     "run e MergePrompt = Completed 0 out2" "strip out2 \<noteq> []"
  shows "handover_file (pipeline e sid ex s c w) = Some (strip out2) \<and>
    error_log_file (pipeline e sid ex s c w) = error_log_file w \<and>
    ready_marker_file (pipeline e sid ex s c w) = Some sid \<and>
    trace (pipeline e sid ex s c w) =
    trace w @ [MadeWorkDir, WroteStatus (lit ''pass1''), WroteWorkFile ''transcript.txt'',
      WroteWorkFile ''compaction_summary.txt'', CalledClaude ExtractPrompt 180,
      WroteStatus (lit ''pass2''), WroteWorkFile ''existing_handover.md'',
      WroteWorkFile ''new_fragment.md'', CalledClaude MergePrompt 120,
      WroteHandover (strip out2),
      WroteStatus (lit ''done''), WroteReadyMarker, RemovedWorkDir]"
  using assms by (simp add: io_defs Let_def)


lemma pipeline_no_merge_prior:
  assumes "run e ExtractPrompt = Completed 0 out1" and "strip out1 \<noteq> []"
  shows "pipeline e sid [] s c (w\<lparr>handover_file := a\<rparr>) = pipeline e sid [] s c (w\<lparr>handover_file := b\<rparr>)"
  using assms by (simp add: io_defs Let_def)

lemma sample_facts:
  "3 \<le> length sample_argv"
  "sample_argv ! 1 = lit ''s1''"
  "transcript (sample_env r1 r2) (sample_argv ! 2) = Some sample_log"
  "fmt (sample_env r1 r2) = (\<lambda>v. lit ''None'')"
  "now (sample_env r1 r2) n = lit ''2025-01-01T12:00:00''"
  "run (sample_env r1 r2) ExtractPrompt = r1"
  "run (sample_env r1 r2) MergePrompt = r2"
  by (simp_all add: sample_argv_def sample_env_def)

lemma sample_strip: "strip (lit ''# Handover'') = lit ''# Handover''"
  by (rule strip_id) (simp_all add: lit_def is_space_def)

lemma run_cases:
  obtains (p1_raise) x where "run e ExtractPrompt = Raised x"
  | (p1_none) rc out1 where "run e ExtractPrompt = Completed rc out1" "rc \<noteq> 0 \<or> strip out1 = []"
  | (no_merge) out1 where "run e ExtractPrompt = Completed 0 out1" "strip out1 \<noteq> []" "ex = []"
  | (p2_raise) out1 x where "run e ExtractPrompt = Completed 0 out1" "strip out1 \<noteq> []"
      "ex \<noteq> []" "run e MergePrompt = Raised x"
  | (p2_none) out1 rc out2 where "run e ExtractPrompt = Completed 0 out1" "strip out1 \<noteq> []"
      "ex \<noteq> []" "run e MergePrompt = Completed rc out2" "rc \<noteq> 0 \<or> strip out2 = []"
  | (p2_merged) out1 out2 where "run e ExtractPrompt = Completed 0 out1" "strip out1 \<noteq> []"
      "ex \<noteq> []" "run e MergePrompt = Completed 0 out2" "strip out2 \<noteq> []"
proof (cases "run e ExtractPrompt")
  case (Raised x)
  then show ?thesis by (rule p1_raise)
next
  case c1: (Completed rc out1)
  show ?thesis
  proof (cases "rc \<noteq> 0 \<or> strip out1 = []")
    case True
    with c1 show ?thesis by (rule p1_none)
  next
    case ok: False
    show ?thesis
    proof (cases "ex = []")
      case True
      with c1 ok show ?thesis by (intro no_merge [of out1]) simp_all
    next
      case ne: False
      show ?thesis
      proof (cases "run e MergePrompt")
        case (Raised x)
        with c1 ok ne show ?thesis by (intro p2_raise [of out1 x]) simp_all
      next
        case c2: (Completed rc2 out2)
        show ?thesis
        proof (cases "rc2 \<noteq> 0 \<or> strip out2 = []")
          case True
          with c1 ok ne c2 show ?thesis by (intro p2_none [of out1 rc2 out2]) simp_all
        next
          case False
          with c1 ok ne c2 show ?thesis by (intro p2_merged [of out1 out2]) simp_all
        qed
      qed
    qed
  qed
qed

lemma sample_main:
  "main (sample_env r1 r2) sample_argv (sample_world doc errs) =
     Inr (pipeline (sample_env r1 r2) (lit ''s1'') (case doc of None \<Rightarrow> [] | Some t \<Rightarrow> t) []
            [lit ''[user]: hello world''] (sample_world doc errs))"
proof -
  have "handover_file (sample_world doc errs) = doc" by (simp add: sample_world_def)
  with main_running [OF sample_facts(1) sample_facts(3) sample_parse, of r1 r2 "sample_world doc errs"]
  show ?thesis unfolding sample_facts(2) by simp
qed

subsection \<open>The readiness marker in a trace\<close>

lemma marker_follows_document:
  assumes "t = ys @ WroteHandover d # zs @ WroteReadyMarker # us"
    and "WroteReadyMarker \<notin> set ys" and "WroteReadyMarker \<notin> set zs"
    and "WroteReadyMarker \<notin> set us"
  shows "\<forall>i<length t. t ! i = WroteReadyMarker \<longrightarrow> (\<exists>j<i. t ! j = WroteHandover d)"
proof (intro allI impI)
  fix i
  assume i: "i < length t" and r: "t ! i = WroteReadyMarker"
  have "length ys < i"
  proof (rule ccontr)
    assume "\<not> length ys < i"
    then consider "i < length ys" | "i = length ys" by linarith
    then show False
    proof cases
      case 1
      with r assms(1) have "ys ! i = WroteReadyMarker" by (simp add: nth_append)
      with 1 assms(2) show False by (metis nth_mem)
    next
      case 2
      with r assms(1) show False by (simp add: nth_append)
    qed
  qed
  moreover have "t ! length ys = WroteHandover d"
    using assms(1) by (simp add: nth_append)
  ultimately show "\<exists>j<i. t ! j = WroteHandover d" by blast
qed

lemma filter_absent:
  assumes "x \<notin> set t"
  shows "filter (\<lambda>ev. ev = x) t = []"
  using assms by (induction t) auto

lemma marker_props_none:
  assumes "WroteReadyMarker \<notin> set t" and "rm' = rm"
  shows "length (filter (\<lambda>ev. ev = WroteReadyMarker) t) \<le> 1 \<and>
    (\<forall>i<length t. t ! i = WroteReadyMarker \<longrightarrow> Q i) \<and>
    (A \<longrightarrow> WroteReadyMarker \<notin> set t \<and> rm' = rm)"
proof -
  from assms(1) have "filter (\<lambda>ev. ev = WroteReadyMarker) t = []"
    by (rule filter_absent)
  moreover from assms(1) have "\<forall>i<length t. t ! i = WroteReadyMarker \<longrightarrow> Q i"
    by (metis nth_mem)
  ultimately show ?thesis using assms by simp
qed

lemma marker_props_done:
  assumes t: "t = ys @ WroteHandover d # zs @ WroteReadyMarker # us"
    and "WroteReadyMarker \<notin> set ys" and "WroteReadyMarker \<notin> set zs"
    and "WroteReadyMarker \<notin> set us"
    and "WroteStatus (lit ''error'') \<notin> set t" and "h = Some d"
  shows "length (filter (\<lambda>ev. ev = WroteReadyMarker) t) \<le> 1 \<and>
    (\<forall>i<length t. t ! i = WroteReadyMarker \<longrightarrow>
       (\<exists>j<i. \<exists>text. t ! j = WroteHandover text \<and> h = Some text)) \<and>
    (WroteStatus (lit ''error'') \<in> set t \<longrightarrow> WroteReadyMarker \<notin> set t \<and> rm' = rm)"
proof -
  have "filter (\<lambda>ev. ev = WroteReadyMarker) t = [WroteReadyMarker]"
    unfolding t by (simp add: filter_absent [OF assms(2)] filter_absent [OF assms(3)]
        filter_absent [OF assms(4)])
  moreover have "\<forall>i<length t. t ! i = WroteReadyMarker \<longrightarrow>
       (\<exists>j<i. \<exists>text. t ! j = WroteHandover text \<and> h = Some text)"
    using marker_follows_document [OF assms(1-4)] assms(6) by blast
  ultimately show ?thesis using assms(5) by simp
qed

subsection \<open>The loops of the parser\<close>

lemma boundary_positions_Nil [simp]: "boundary_positions [] = []"
  by (simp add: boundary_positions_def)

lemma boundary_positions_Cons:
  "boundary_positions (l # ls) =
     (if is_compact_boundary l then [0] else []) @ map Suc (boundary_positions ls)"
proof -
  have "[0..<length (l # ls)] = 0 # map Suc [0..<length ls]"
    by (simp add: upt_conv_Cons map_Suc_upt del: upt_Suc)
  then show ?thesis
    by (simp add: boundary_positions_def filter_map comp_def)
qed

lemma find_boundaries_Inr_records:
  "find_boundaries ls i acc = Inr bs \<Longrightarrow> \<forall>l\<in>set ls. is_record l"
  by (induction ls i acc rule: find_boundaries.induct) auto

lemma find_boundaries_records:
  "\<forall>l\<in>set ls. is_record l \<Longrightarrow>
     find_boundaries ls i acc = Inr (acc @ map (\<lambda>k. i + k) (boundary_positions ls))"
proof (induction ls i acc rule: find_boundaries.induct)
  case (1 i acc)
  then show ?case by simp
next
  case (2 ls i acc)
  then show ?case by (simp add: boundary_positions_Cons comp_def)
next
  case (3 obj ls i acc)
  then show ?case by (simp add: boundary_positions_Cons comp_def)
qed simp_all

lemma boundary_positions_less: "k \<in> set (boundary_positions ls) \<Longrightarrow> k < length ls"
  by (simp add: boundary_positions_def)

lemma boundary_positions_append:
  "boundary_positions (pre @ ls) =
     boundary_positions pre @ map (\<lambda>k. length pre + k) (boundary_positions ls)"
  by (induction pre) (simp_all add: boundary_positions_Cons comp_def)


lemma find_summary_shift:
  "find_summary (pre @ ls) (map (\<lambda>k. length pre + k) is) = find_summary ls is"
  by (induction "is") (auto split: option.splits json.splits sum.splits)

lemma collect_shift:
  "collect f (pre @ ls) (map (\<lambda>k. length pre + k) is) acc = collect f ls is acc"
  by (induction "is" arbitrary: acc) (simp_all split: sum.splits option.splits)

lemma upt_shift: "[n + a..<n + b] = map (\<lambda>k. n + k) [a..<b]"
  by (rule nth_equalityI) simp_all

lemma parse_jsonl_records:
  assumes "\<forall>l\<in>set ls. is_record l"
  shows "parse_jsonl f ls =
    (if boundary_positions ls = [] then Inr None
     else
       (case find_summary ls [last (boundary_positions ls) + 1 ..<
                 min (last (boundary_positions ls) + 5) (length ls)] of
          Inl e \<Rightarrow> Inl e
        | Inr s \<Rightarrow>
            (case collect f ls [start_idx (boundary_positions ls) ..<
                      last (boundary_positions ls)] [] of
               Inl e \<Rightarrow> Inl e
             | Inr c \<Rightarrow> Inr (Some (s, c)))))"
  using find_boundaries_records [OF assms, of 0 "[]"]
  by (simp add: parse_jsonl_def Let_def)

lemma collect_members:
  "collect f ls is acc = Inr c \<Longrightarrow> t \<in> set c \<Longrightarrow>
     t \<in> set acc \<or> (\<exists>i\<in>set is. turn f (ls ! i) = Inr (Some t))"
proof (induction "is" arbitrary: acc)
  case Nil
  then show ?case by simp
next
  case (Cons i "is")
  show ?case
  proof (cases "turn f (ls ! i)")
    case (Inl e)
    with Cons.prems show ?thesis by simp
  next
    case (Inr r)
    show ?thesis
    proof (cases r)
      case None
      with Inr Cons.prems have "collect f ls is acc = Inr c" by simp
      from Cons.IH [OF this Cons.prems(2)] show ?thesis by auto
    next
      case (Some u)
      with Inr Cons.prems have "collect f ls is (acc @ [u]) = Inr c" by simp
      from Cons.IH [OF this Cons.prems(2)] Inr Some show ?thesis by auto
    qed
  qed
qed

lemma turn_Some:
  assumes "turn f l = Inr (Some t)"
  shows "\<exists>obj msg text. l = Some (JObj obj) \<and>
    dict_get obj (lit ''message'') (JObj []) = JObj msg \<and>
    extract_text msg = Inr text \<and>
    t = lit ''['' @
        format_role f (dict_get msg (lit ''role'') (dict_get obj (lit ''type'') (JStr []))) @
        lit '']: '' @
        (if 2000 < length text then take 2000 text @ truncation_marker else text)"
  using assms
  by (auto simp add: turn_def Let_def truncate_text_def
      split: option.splits json.splits if_splits sum.splits)

lemma message_record_facts:
  "is_record (message_record role content)"
  "\<not> is_compact_boundary (message_record ''user'' content)"
  "\<not> is_compact_boundary (message_record ''assistant'' content)"
  "is_record boundary_record"
  "is_compact_boundary boundary_record"
  by (simp_all add: message_record_def boundary_record_def dict_get_def)

section \<open>The claims\<close>

text \<open>
  C2. A prior handover document exists (Pass 2 runs only for a document that is not
  empty), Pass 1 succeeds and Pass 2 returns no output: the run ends normally, the
  document on disk is the Pass 1 fragment verbatim, the error log holds the entry of the
  degraded success, the status is \<open>done\<close> and the readiness marker is written.
\<close>

theorem merge_failure_keeps_fragment:
  assumes "3 \<le> length argv" and "transcript e (argv ! 2) = Some lines"
    and "parse_jsonl (fmt e) lines = Inr (Some (summary, conversation))"
    and "conversation \<noteq> []"
    and "handover_file w = Some prior" and "prior \<noteq> []"
    and "run e ExtractPrompt = Completed 0 out1" and "strip out1 \<noteq> []"
    and "run e MergePrompt = Completed rc out2" and "rc \<noteq> 0 \<or> strip out2 = []"
  shows "\<exists>w'. main e argv w = Inr w' \<and>
    handover_file w' = Some (strip out1) \<and>
    error_log_file w' =
      Some (now e (clock w + 2) @ lit '': Pass 2 failed, saved Pass 1 output only'' @ [10]) \<and>
    status_file w' =
      Some \<lparr>phase = lit ''done'', step = 0, total = 0, session_id = argv ! 1,
             updated_at = now e (clock w + 3), error = []\<rparr> \<and>
    ready_marker_file w' = Some (argv ! 1) \<and>
    CalledClaude MergePrompt 120 \<in> set (trace w')"
proof -
  have "main e argv w = Inr (pipeline e (argv ! 1) prior summary conversation w)"
    using main_running [OF assms(1-4), of w] assms(5) by simp
  moreover note path_p2_none [OF assms(7,8,6,9,10), of "argv ! 1" summary conversation w]
  ultimately show ?thesis by simp
qed

theorem merge_failure_keeps_fragment_witness:
  "\<exists>w'. main (sample_env (Completed 0 (lit ''# Handover'')) (Completed 1 [])) sample_argv
          (sample_world (Some (lit ''# Earlier'')) None) = Inr w' \<and>
     handover_file w' = Some (lit ''# Handover'') \<and>
     error_log_file w' =
       Some (lit ''2025-01-01T12:00:00: Pass 2 failed, saved Pass 1 output only'' @ [10]) \<and>
     status_file w' =
       Some \<lparr>phase = lit ''done'', step = 0, total = 0, session_id = lit ''s1'',
              updated_at = lit ''2025-01-01T12:00:00'', error = []\<rparr> \<and>
     ready_marker_file w' = Some (lit ''s1'') \<and>
     CalledClaude MergePrompt 120 \<in> set (trace w')"
proof -
  have s: "strip (lit ''# Handover'') = lit ''# Handover''"
    by (rule strip_id) (simp_all add: lit_def is_space_def)
  have p: "parse_jsonl (fmt (sample_env (Completed 0 (lit ''# Handover'')) (Completed 1 [])))
             sample_log = Inr (Some ([], [lit ''[user]: hello world'']))"
    by (rule sample_parse)
  show ?thesis
    using merge_failure_keeps_fragment [of sample_argv
        "sample_env (Completed 0 (lit ''# Handover'')) (Completed 1 [])" sample_log
        "[]" "[lit ''[user]: hello world'']" "sample_world (Some (lit ''# Earlier'')) None"
        "lit ''# Earlier''" "lit ''# Handover''" 1 "[]", OF _ _ p]
    by (simp add: s sample_argv_def sample_env_def sample_world_def lit_append)
qed

text \<open>
  C3. No prior handover document exists and Pass 1 succeeds: the document on disk is the
  Pass 1 fragment verbatim, and the effects of the run, in order, hold no call with the
  merge prompt and no file of \<open>pass2_merge\<close>, whatever the external call would do with
  that prompt.
\<close>

theorem first_run_writes_fragment:
  assumes "3 \<le> length argv" and "transcript e (argv ! 2) = Some lines"
    and "parse_jsonl (fmt e) lines = Inr (Some (summary, conversation))"
    and "conversation \<noteq> []"
    and "handover_file w = None"
    and "run e ExtractPrompt = Completed 0 out1" and "strip out1 \<noteq> []"
  shows "\<exists>w'. main e argv w = Inr w' \<and>
    handover_file w' = Some (strip out1) \<and>
    trace w' = trace w @
      [MadeWorkDir, WroteStatus (lit ''pass1''), WroteWorkFile ''transcript.txt'',
       WroteWorkFile ''compaction_summary.txt'', CalledClaude ExtractPrompt 180,
       WroteHandover (strip out1), WroteStatus (lit ''done''), WroteReadyMarker,
       RemovedWorkDir]"
proof -
  have "main e argv w = Inr (pipeline e (argv ! 1) [] summary conversation w)"
    using main_running [OF assms(1-4), of w] assms(5) by simp
  moreover note path_no_merge [OF assms(6,7), of "argv ! 1" summary conversation w]
  ultimately show ?thesis by simp
qed

theorem first_run_writes_fragment_witness:
  "\<exists>w'. main (sample_env (Completed 0 (lit ''# Handover'')) (Raised TimeoutExpired)) sample_argv
          (sample_world None None) = Inr w' \<and>
     handover_file w' = Some (lit ''# Handover'') \<and>
     trace w' =
      [MadeWorkDir, WroteStatus (lit ''pass1''), WroteWorkFile ''transcript.txt'',
       WroteWorkFile ''compaction_summary.txt'', CalledClaude ExtractPrompt 180,
       WroteHandover (lit ''# Handover''), WroteStatus (lit ''done''), WroteReadyMarker,
       RemovedWorkDir]"
proof -
  have s: "strip (lit ''# Handover'') = lit ''# Handover''"
    by (rule strip_id) (simp_all add: lit_def is_space_def)
  have p: "parse_jsonl (fmt (sample_env (Completed 0 (lit ''# Handover'')) (Raised TimeoutExpired)))
             sample_log = Inr (Some ([], [lit ''[user]: hello world'']))"
    by (rule sample_parse)
  show ?thesis
    using first_run_writes_fragment [of sample_argv
        "sample_env (Completed 0 (lit ''# Handover'')) (Raised TimeoutExpired)" sample_log
        "[]" "[lit ''[user]: hello world'']" "sample_world None None"
        "lit ''# Handover''", OF _ _ p]
    by (simp add: s sample_argv_def sample_env_def sample_world_def)
qed

text \<open>
  C10. A prior handover document that exists and is empty counts as no document: given
  that Pass 1 succeeds, the run from the empty document ends as the run from no
  document does, with the Pass 1 fragment as the document and without the merge call.
\<close>

theorem empty_prior_document_is_no_document:
  assumes "3 \<le> length argv" and "transcript e (argv ! 2) = Some lines"
    and "parse_jsonl (fmt e) lines = Inr (Some (summary, conversation))"
    and "conversation \<noteq> []"
    and "run e ExtractPrompt = Completed 0 out1" and "strip out1 \<noteq> []"
  shows "main e argv (w\<lparr>handover_file := Some []\<rparr>) = main e argv (w\<lparr>handover_file := None\<rparr>) \<and>
    (\<exists>w'. main e argv (w\<lparr>handover_file := Some []\<rparr>) = Inr w' \<and>
      handover_file w' = Some (strip out1) \<and>
      trace w' = trace w @
        [MadeWorkDir, WroteStatus (lit ''pass1''), WroteWorkFile ''transcript.txt'',
         WroteWorkFile ''compaction_summary.txt'', CalledClaude ExtractPrompt 180,
         WroteHandover (strip out1), WroteStatus (lit ''done''), WroteReadyMarker,
         RemovedWorkDir])"
proof -
  have 1: "main e argv (w\<lparr>handover_file := Some []\<rparr>) =
      Inr (pipeline e (argv ! 1) [] summary conversation (w\<lparr>handover_file := Some []\<rparr>))"
    using main_running [OF assms(1-4), of "w\<lparr>handover_file := Some []\<rparr>"] by simp
  have 2: "main e argv (w\<lparr>handover_file := None\<rparr>) =
      Inr (pipeline e (argv ! 1) [] summary conversation (w\<lparr>handover_file := None\<rparr>))"
    using main_running [OF assms(1-4), of "w\<lparr>handover_file := None\<rparr>"] by simp
  note 3 = path_no_merge [OF assms(5,6), of "argv ! 1" summary conversation "w\<lparr>handover_file := Some []\<rparr>"]
  show ?thesis
    using 3 by (simp add: 1 2 pipeline_no_merge_prior [OF assms(5,6)])
qed

theorem empty_prior_document_is_no_document_witness:
  "main (sample_env (Completed 0 (lit ''# Handover'')) (Completed 0 (lit ''# Merged''))) sample_argv
     (sample_world (Some []) None) =
   main (sample_env (Completed 0 (lit ''# Handover'')) (Completed 0 (lit ''# Merged''))) sample_argv
     (sample_world None None) \<and>
   (\<exists>w'. main (sample_env (Completed 0 (lit ''# Handover'')) (Completed 0 (lit ''# Merged''))) sample_argv
          (sample_world (Some []) None) = Inr w' \<and>
     handover_file w' = Some (lit ''# Handover'') \<and>
     trace w' =
      [MadeWorkDir, WroteStatus (lit ''pass1''), WroteWorkFile ''transcript.txt'',
       WroteWorkFile ''compaction_summary.txt'', CalledClaude ExtractPrompt 180,
       WroteHandover (lit ''# Handover''), WroteStatus (lit ''done''), WroteReadyMarker,
       RemovedWorkDir])"
proof -
  let ?e = "sample_env (Completed 0 (lit ''# Handover'')) (Completed 0 (lit ''# Merged''))"
  have s: "strip (lit ''# Handover'') = lit ''# Handover''"
    by (rule strip_id) (simp_all add: lit_def is_space_def)
  have h1: "3 \<le> length sample_argv" by (simp add: sample_argv_def)
  have h2: "transcript ?e (sample_argv ! 2) = Some sample_log"
    by (simp add: sample_argv_def sample_env_def)
  have h3: "parse_jsonl (fmt ?e) sample_log = Inr (Some ([], [lit ''[user]: hello world'']))"
    by (rule sample_parse)
  have h4: "[lit ''[user]: hello world''] \<noteq> []" by simp
  have h5: "run ?e ExtractPrompt = Completed 0 (lit ''# Handover'')"
    by (simp add: sample_env_def)
  have h6: "strip (lit ''# Handover'') \<noteq> []" by (simp add: s)
  have w: "(sample_world None None)\<lparr>handover_file := Some []\<rparr> = sample_world (Some []) None"
    "(sample_world None None)\<lparr>handover_file := None\<rparr> = sample_world None None"
    "trace (sample_world None None) = []"
    by (simp_all add: sample_world_def)
  show ?thesis
    using empty_prior_document_is_no_document [OF h1 h2 h3 h4 h5 h6, of "sample_world None None"]
    unfolding w s append_Nil .
qed

text \<open>
  C4, as the code has it. Every failure is recorded with \<open>write_text\<close>, which replaces
  the file: after a run that recorded a failure, the error log holds exactly the entry
  of that failure, the time followed by the description of a failed Pass 1, of a failed
  Pass 2, of a timeout or of another exception, whatever the log held before.
\<close>

theorem error_log_holds_one_entry:
  assumes "main e argv w = Inr w'" and "trace w = []"
    and "WroteErrorLog entry \<in> set (trace w')"
  shows "error_log_file w' = Some entry \<and>
    (\<exists>n. entry = now e n @ lit '': Pass 1 failed (no output from claude -p)'' @ [10] \<or>
         entry = now e n @ lit '': Pass 2 failed, saved Pass 1 output only'' @ [10] \<or>
         (\<exists>x. entry = now e n @ failure_entry x))"
proof -
  from main_cases [OF assms(1)] assms(2,3)
  obtain ex s c where w': "w' = pipeline e (argv ! 1) ex s c w" by auto
  show ?thesis
  proof (cases rule: run_cases [where e = e and ex = ex])
    case (p1_raise x)
    from path_p1_raise [OF this, of "argv ! 1" ex s c w] assms(2,3) show ?thesis
      unfolding w' by auto
  next
    case (p1_none rc out1)
    from path_p1_none [OF this, of "argv ! 1" ex s c w] assms(2,3) show ?thesis
      unfolding w' by auto
  next
    case (no_merge out1)
    from path_no_merge [OF this(1,2), of "argv ! 1" s c w] assms(2,3) show ?thesis
      unfolding w' no_merge(3) by auto
  next
    case (p2_raise out1 x)
    from path_p2_raise [OF this, of "argv ! 1" s c w] assms(2,3) show ?thesis
      unfolding w' by auto
  next
    case (p2_none out1 rc out2)
    from path_p2_none [OF this, of "argv ! 1" s c w] assms(2,3) show ?thesis
      unfolding w' by auto
  next
    case (p2_merged out1 out2)
    from path_p2_merged [OF this, of "argv ! 1" s c w] assms(2,3) show ?thesis
      unfolding w' by auto
  qed
qed


theorem error_log_holds_one_entry_witness:
  "error_log_file
     (pipeline (sample_env (Completed 1 []) (Completed 1 [])) (lit ''s1'') [] []
        [lit ''[user]: hello world''] (sample_world None (Some (lit ''earlier entry'')))) =
   Some (lit ''2025-01-01T12:00:00'' @ lit '': Pass 1 failed (no output from claude -p)'' @ [10]) \<and>
   (\<exists>n. lit ''2025-01-01T12:00:00'' @ lit '': Pass 1 failed (no output from claude -p)'' @ [10] =
          now (sample_env (Completed 1 []) (Completed 1 [])) n @
            lit '': Pass 1 failed (no output from claude -p)'' @ [10] \<or>
        lit ''2025-01-01T12:00:00'' @ lit '': Pass 1 failed (no output from claude -p)'' @ [10] =
          now (sample_env (Completed 1 []) (Completed 1 [])) n @
            lit '': Pass 2 failed, saved Pass 1 output only'' @ [10] \<or>
        (\<exists>x. lit ''2025-01-01T12:00:00'' @ lit '': Pass 1 failed (no output from claude -p)'' @ [10] =
          now (sample_env (Completed 1 []) (Completed 1 [])) n @ failure_entry x))"
proof -
  let ?e = "sample_env (Completed 1 []) (Completed 1 [])"
  let ?w = "sample_world None (Some (lit ''earlier entry''))"
  have m: "main ?e sample_argv ?w =
      Inr (pipeline ?e (lit ''s1'') [] [] [lit ''[user]: hello world''] ?w)"
    by (simp add: sample_main)
  have t: "trace ?w = []" by (simp add: sample_world_def)
  have i: "WroteErrorLog (lit ''2025-01-01T12:00:00'' @ lit '': Pass 1 failed (no output from claude -p)'' @ [10])
      \<in> set (trace (pipeline ?e (lit ''s1'') [] [] [lit ''[user]: hello world''] ?w))"
    using path_p1_none [of ?e 1 "[]" "lit ''s1''" "[]" "[]" "[lit ''[user]: hello world'']" ?w]
    by (simp add: sample_facts)
  show ?thesis
    using error_log_holds_one_entry [OF m t i] by (simp only: sample_facts)
qed

text \<open>
  C4, as stated, fails: a log that holds an earlier entry holds only the new entry after
  a run whose Pass 1 fails, and the earlier entry is no part of it.
\<close>

theorem error_log_overwritten:
  "error_log_file (sample_world None (Some (lit ''earlier entry''))) = Some (lit ''earlier entry'') \<and>
   (case main (sample_env (Completed 1 []) (Completed 1 [])) sample_argv
           (sample_world None (Some (lit ''earlier entry''))) of
      Inl x \<Rightarrow> None
    | Inr w' \<Rightarrow> error_log_file w') =
     Some (lit ''2025-01-01T12:00:00: Pass 1 failed (no output from claude -p)'' @ [10]) \<and>
   \<not> contains (lit ''earlier entry'')
       (lit ''2025-01-01T12:00:00: Pass 1 failed (no output from claude -p)'' @ [10])"
proof -
  let ?e = "sample_env (Completed 1 []) (Completed 1 [])"
  let ?w = "sample_world None (Some (lit ''earlier entry''))"
  have m: "main ?e sample_argv ?w =
      Inr (pipeline ?e (lit ''s1'') [] [] [lit ''[user]: hello world''] ?w)"
    by (simp add: sample_main)
  have l: "error_log_file (pipeline ?e (lit ''s1'') [] [] [lit ''[user]: hello world''] ?w) =
      Some (lit ''2025-01-01T12:00:00: Pass 1 failed (no output from claude -p)'' @ [10])"
    using path_p1_none [of ?e 1 "[]" "lit ''s1''" "[]" "[]" "[lit ''[user]: hello world'']" ?w]
    by (simp add: sample_facts lit_append)
  have c: "\<not> contains (lit ''earlier entry'')
       (lit ''2025-01-01T12:00:00: Pass 1 failed (no output from claude -p)'' @ [10])"
    by (simp add: lit_def)
  show ?thesis by (simp add: m l c) (simp add: sample_world_def)
qed


text \<open>
  C9. In every run the readiness marker is written at most once, every write of it comes
  after a write of the handover document, whose text is the document on disk at the
  end, and a run that sets the status to \<open>error\<close> neither writes the marker nor changes
  it.
\<close>

theorem readiness_marker_after_document:
  assumes "main e argv w = Inr w'" and "trace w = []"
  shows "length (filter (\<lambda>ev. ev = WroteReadyMarker) (trace w')) \<le> 1 \<and>
    (\<forall>i<length (trace w'). trace w' ! i = WroteReadyMarker \<longrightarrow>
       (\<exists>j<i. \<exists>text. trace w' ! j = WroteHandover text \<and> handover_file w' = Some text)) \<and>
    (WroteStatus (lit ''error'') \<in> set (trace w') \<longrightarrow>
       WroteReadyMarker \<notin> set (trace w') \<and> ready_marker_file w' = ready_marker_file w)"
proof (cases "w' = w")
  case True
  with assms(2) show ?thesis by simp
next
  case False
  with main_cases [OF assms(1)]
  obtain ex s c where w': "w' = pipeline e (argv ! 1) ex s c w" by auto
  show ?thesis
  proof (cases rule: run_cases [where e = e and ex = ex])
    case (p1_raise x)
    note p = path_p1_raise [OF this, of "argv ! 1" ex s c w]
    show ?thesis unfolding w'
      by (rule marker_props_none) (use p assms(2) in simp_all)
  next
    case (p1_none rc out1)
    note p = path_p1_none [OF this, of "argv ! 1" ex s c w]
    show ?thesis unfolding w'
      by (rule marker_props_none) (use p assms(2) in simp_all)
  next
    case (no_merge out1)
    note p = path_no_merge [OF this(1,2), of "argv ! 1" s c w]
    show ?thesis unfolding w' no_merge(3)
      by (rule marker_props_done [where d = "strip out1"
            and ys = "[MadeWorkDir, WroteStatus (lit ''pass1''), WroteWorkFile ''transcript.txt'',
              WroteWorkFile ''compaction_summary.txt'', CalledClaude ExtractPrompt 180]"
            and zs = "[WroteStatus (lit ''done'')]" and us = "[RemovedWorkDir]"])
        (use p assms(2) in simp_all)
  next
    case (p2_raise out1 x)
    note p = path_p2_raise [OF this, of "argv ! 1" s c w]
    show ?thesis unfolding w'
      by (rule marker_props_none) (use p assms(2) in simp_all)
  next
    case (p2_none out1 rc out2)
    note p = path_p2_none [OF this, of "argv ! 1" s c w]
    show ?thesis unfolding w'
      by (rule marker_props_done [where d = "strip out1"
            and ys = "[MadeWorkDir, WroteStatus (lit ''pass1''), WroteWorkFile ''transcript.txt'',
              WroteWorkFile ''compaction_summary.txt'', CalledClaude ExtractPrompt 180,
              WroteStatus (lit ''pass2''), WroteWorkFile ''existing_handover.md'',
              WroteWorkFile ''new_fragment.md'', CalledClaude MergePrompt 120]"
            and zs = "[WroteErrorLog (now e (clock w + 2) @
                lit '': Pass 2 failed, saved Pass 1 output only'' @ [10]),
              WroteStatus (lit ''done'')]" and us = "[RemovedWorkDir]"])
        (use p assms(2) in simp_all)
  next
    case (p2_merged out1 out2)
    note p = path_p2_merged [OF this, of "argv ! 1" s c w]
    show ?thesis unfolding w'
      by (rule marker_props_done [where d = "strip out2"
            and ys = "[MadeWorkDir, WroteStatus (lit ''pass1''), WroteWorkFile ''transcript.txt'',
              WroteWorkFile ''compaction_summary.txt'', CalledClaude ExtractPrompt 180,
              WroteStatus (lit ''pass2''), WroteWorkFile ''existing_handover.md'',
              WroteWorkFile ''new_fragment.md'', CalledClaude MergePrompt 120]"
            and zs = "[WroteStatus (lit ''done'')]" and us = "[RemovedWorkDir]"])
        (use p assms(2) in simp_all)
  qed
qed


theorem readiness_marker_after_document_witness:
  "length (filter (\<lambda>ev. ev = WroteReadyMarker)
     (trace (pipeline (sample_env (Completed 0 (lit ''# Handover'')) (Completed 1 [])) (lit ''s1'') []
        [] [lit ''[user]: hello world''] (sample_world None None)))) \<le> 1 \<and>
   trace (pipeline (sample_env (Completed 0 (lit ''# Handover'')) (Completed 1 [])) (lit ''s1'') []
        [] [lit ''[user]: hello world''] (sample_world None None)) ! 7 = WroteReadyMarker \<and>
   (\<exists>j<7. \<exists>text.
      trace (pipeline (sample_env (Completed 0 (lit ''# Handover'')) (Completed 1 [])) (lit ''s1'') []
        [] [lit ''[user]: hello world''] (sample_world None None)) ! j = WroteHandover text \<and>
      handover_file (pipeline (sample_env (Completed 0 (lit ''# Handover'')) (Completed 1 [])) (lit ''s1'') []
        [] [lit ''[user]: hello world''] (sample_world None None)) = Some text) \<and>
   WroteStatus (lit ''error'') \<in> set
     (trace (pipeline (sample_env (Raised TimeoutExpired) (Completed 1 [])) (lit ''s1'') []
        [] [lit ''[user]: hello world''] (sample_world None None))) \<and>
   WroteReadyMarker \<notin> set
     (trace (pipeline (sample_env (Raised TimeoutExpired) (Completed 1 [])) (lit ''s1'') []
        [] [lit ''[user]: hello world''] (sample_world None None)))"
proof -
  let ?e = "sample_env (Completed 0 (lit ''# Handover'')) (Completed 1 [])"
  let ?f = "sample_env (Raised TimeoutExpired) (Completed 1 [])"
  let ?w = "sample_world None None"
  let ?W = "pipeline ?e (lit ''s1'') [] [] [lit ''[user]: hello world''] ?w"
  let ?V = "pipeline ?f (lit ''s1'') [] [] [lit ''[user]: hello world''] ?w"
  have t: "trace ?w = []" by (simp add: sample_world_def)
  have m: "main ?e sample_argv ?w = Inr ?W" by (simp add: sample_main)
  have n: "main ?f sample_argv ?w = Inr ?V" by (simp add: sample_main)
  note r = readiness_marker_after_document [OF m t]
  note q = readiness_marker_after_document [OF n t]
  have tr: "trace ?W =
      [MadeWorkDir, WroteStatus (lit ''pass1''), WroteWorkFile ''transcript.txt'',
       WroteWorkFile ''compaction_summary.txt'', CalledClaude ExtractPrompt 180,
       WroteHandover (lit ''# Handover''), WroteStatus (lit ''done''), WroteReadyMarker,
       RemovedWorkDir]"
    using path_no_merge [of ?e "lit ''# Handover''" "lit ''s1''" "[]" "[lit ''[user]: hello world'']" ?w]
    by (simp add: sample_facts sample_strip t)
  have i: "7 < length (trace ?W)" "trace ?W ! 7 = WroteReadyMarker"
    by (simp_all add: tr)
  from r have "\<forall>i<length (trace ?W). trace ?W ! i = WroteReadyMarker \<longrightarrow>
       (\<exists>j<i. \<exists>text. trace ?W ! j = WroteHandover text \<and> handover_file ?W = Some text)"
    by blast
  with i have 1: "\<exists>j<7. \<exists>text. trace ?W ! j = WroteHandover text \<and> handover_file ?W = Some text"
    by blast
  have 2: "WroteStatus (lit ''error'') \<in> set (trace ?V)"
    using path_p1_raise [of ?f TimeoutExpired "lit ''s1''" "[]" "[]" "[lit ''[user]: hello world'']" ?w]
    by (simp add: sample_facts)
  with q have 3: "WroteReadyMarker \<notin> set (trace ?V)" by blast
  from r have 4: "length (filter (\<lambda>ev. ev = WroteReadyMarker) (trace ?W)) \<le> 1" by blast
  show ?thesis using 1 2 3 4 i(2) by blast
qed

text \<open>
  C7, as the code has it. Before the external call of Pass 1, the scratch directory
  holds the joined transcript, cut to its last 150,000 characters when it is longer, and
  the compaction summary, cut to its first 20,000 characters with the truncation marker
  appended when it is longer: at most 20,018 characters.
\<close>

theorem pass1_size_caps:
  assumes "work_dir w = Some d"
  shows "\<exists>T S.
    work_dir (snd (pass1_extract e compaction_summary conversation w)) =
      Some (d(''transcript.txt'' \<mapsto> T, ''compaction_summary.txt'' \<mapsto> S)) \<and>
    T = (if 150000 < length (join [10, 10] conversation)
         then drop (length (join [10, 10] conversation) - 150000) (join [10, 10] conversation)
         else join [10, 10] conversation) \<and>
    suffix T (join [10, 10] conversation) \<and> length T \<le> 150000 \<and>
    S = (if 20000 < length compaction_summary
         then take 20000 compaction_summary @ truncation_marker
         else compaction_summary) \<and>
    take 20000 S = take 20000 compaction_summary \<and> length S \<le> 20018 \<and>
    trace (snd (pass1_extract e compaction_summary conversation w)) =
      trace w @ [WroteWorkFile ''transcript.txt'', WroteWorkFile ''compaction_summary.txt'',
                 CalledClaude ExtractPrompt 180]"
proof -
  have m: "length truncation_marker = 18" by (simp add: truncation_marker_def)
  show ?thesis
    using assms
    by (simp add: pass1_extract_def call_claude_def write_work_file_def Let_def m suffix_drop)
qed


theorem pass1_size_caps_witness:
  "\<exists>T S.
    work_dir (snd (pass1_extract (sample_env (Completed 1 []) (Completed 1 [])) (replicate 20001 120)
        [lit ''[user]: hello world''] (mkdtemp (sample_world None None)))) =
      Some (Map.empty(''transcript.txt'' \<mapsto> T, ''compaction_summary.txt'' \<mapsto> S)) \<and>
    T = lit ''[user]: hello world'' \<and>
    S = replicate 20000 120 @ truncation_marker \<and>
    take 20000 S = take 20000 (replicate 20001 120) \<and> length S \<le> 20018"
proof -
  have d: "work_dir (mkdtemp (sample_world None None)) = Some Map.empty"
    by (simp add: mkdtemp_def)
  show ?thesis
    using pass1_size_caps [OF d, of "sample_env (Completed 1 []) (Completed 1 [])"
        "replicate 20001 120" "[lit ''[user]: hello world'']"]
    by simp
qed

text \<open>
  C7, as stated, fails: a compaction summary of 20,001 characters is written as 20,018
  characters, more than the maximum of 20,000.
\<close>

theorem summary_file_exceeds_20000:
  "work_dir (snd (pass1_extract (sample_env (Completed 1 []) (Completed 1 [])) (replicate 20001 120)
      [lit ''[user]: hello world''] (mkdtemp (sample_world None None)))) =
     Some [''transcript.txt'' \<mapsto> lit ''[user]: hello world'',
           ''compaction_summary.txt'' \<mapsto> replicate 20000 120 @ truncation_marker] \<and>
   length (replicate 20000 120 @ truncation_marker) = 20018"
  by (simp add: pass1_extract_def call_claude_def write_work_file_def mkdtemp_def Let_def
      truncation_marker_def)

text \<open>
  C8. A log of records with no compaction boundary: \<open>parse_jsonl\<close> returns the pair
  \<open>(None, None)\<close> and \<open>main\<close> ends with every file as it was and no effect in the
  trace: no document, error log, status file, readiness marker or scratch directory is
  written.
\<close>

theorem no_compaction_no_writes:
  assumes "\<forall>l\<in>set lines. is_record l" and "\<forall>l\<in>set lines. \<not> is_compact_boundary l"
    and "transcript e (argv ! 2) = Some lines"
  shows "parse_jsonl (fmt e) lines = Inr None \<and> main e argv w = Inr w"
proof -
  from assms(2) have "boundary_positions lines = []"
    by (simp add: boundary_positions_def filter_empty_conv)
  with parse_jsonl_records [OF assms(1)] have "parse_jsonl (fmt e) lines = Inr None" by simp
  with assms(3) show ?thesis by (simp add: main_def Let_def)
qed

theorem no_compaction_no_writes_witness:
  "parse_jsonl (fmt ((sample_env (Completed 0 (lit ''# Handover'')) (Completed 1 []))
       \<lparr>transcript := \<lambda>p. Some [message_record ''user'' (JStr (lit ''hello world'')), None]\<rparr>))
     [message_record ''user'' (JStr (lit ''hello world'')), None] = Inr None \<and>
   main ((sample_env (Completed 0 (lit ''# Handover'')) (Completed 1 []))
       \<lparr>transcript := \<lambda>p. Some [message_record ''user'' (JStr (lit ''hello world'')), None]\<rparr>)
     sample_argv (sample_world (Some (lit ''# Earlier'')) None) =
   Inr (sample_world (Some (lit ''# Earlier'')) None)"
proof -
  let ?ls = "[message_record ''user'' (JStr (lit ''hello world'')), None]"
  let ?e = "(sample_env (Completed 0 (lit ''# Handover'')) (Completed 1 []))
       \<lparr>transcript := \<lambda>p. Some ?ls\<rparr>"
  have 1: "\<forall>l\<in>set ?ls. is_record l" by (simp add: message_record_facts)
  have 2: "\<forall>l\<in>set ?ls. \<not> is_compact_boundary l" by (simp add: message_record_facts)
  have 3: "transcript ?e (sample_argv ! 2) = Some ?ls" by simp
  show ?thesis by (rule no_compaction_no_writes [OF 1 2 3])
qed

text \<open>
  C1. A log of records whose boundaries are at the positions \<open>bs @ [b]\<close>: the summary is
  searched after \<open>b\<close>, and the turns are collected from the lines at the positions
  \<open>[0, b)\<close> when \<open>b\<close> is the only boundary, at \<open>[last bs, b)\<close>, from the second-to-last
  boundary, when there are more. With two or more boundaries in \<open>lines\<close>, records put
  before \<open>lines\<close> change nothing of the result.
\<close>

theorem processing_range:
  assumes "\<forall>l\<in>set pre. is_record l" and "\<forall>l\<in>set lines. is_record l"
    and "boundary_positions lines = bs @ [b]"
  shows "parse_jsonl f lines =
      (case find_summary lines [b + 1 ..< min (b + 5) (length lines)] of
         Inl e \<Rightarrow> Inl e
       | Inr s \<Rightarrow>
           (case collect f lines [(if bs = [] then 0 else last bs) ..< b] [] of
              Inl e \<Rightarrow> Inl e
            | Inr c \<Rightarrow> Inr (Some (s, c)))) \<and>
    (bs \<noteq> [] \<longrightarrow> parse_jsonl f (pre @ lines) = parse_jsonl f lines)"
proof -
  have st: "start_idx (bs @ [b]) = (if bs = [] then 0 else last bs)"
    by (cases bs rule: rev_cases) (simp_all add: start_idx_def nth_append)
  have 1: "parse_jsonl f lines =
      (case find_summary lines [b + 1 ..< min (b + 5) (length lines)] of
         Inl e \<Rightarrow> Inl e
       | Inr s \<Rightarrow>
           (case collect f lines [(if bs = [] then 0 else last bs) ..< b] [] of
              Inl e \<Rightarrow> Inl e
            | Inr c \<Rightarrow> Inr (Some (s, c))))"
    using parse_jsonl_records [OF assms(2), of f] unfolding assms(3) st last_snoc by simp
  have 2: "parse_jsonl f (pre @ lines) = parse_jsonl f lines" if ne: "bs \<noteq> []"
  proof -
    let ?n = "length pre"
    from ne obtain bs' a where bs: "bs = bs' @ [a]" by (cases bs rule: rev_cases) auto
    have all: "\<forall>l\<in>set (pre @ lines). is_record l" using assms(1,2) by auto
    have bp: "boundary_positions (pre @ lines) =
        (boundary_positions pre @ map (\<lambda>k. ?n + k) bs') @ [?n + a, ?n + b]"
      by (simp add: boundary_positions_append assms(3) bs)
    have la: "last (boundary_positions (pre @ lines)) = ?n + b" by (simp add: bp)
    have sa: "start_idx (boundary_positions (pre @ lines)) = ?n + a"
      unfolding bp by (simp add: start_idx_def nth_append)
    have r1: "[?n + b + 1 ..< min (?n + b + 5) (length (pre @ lines))] =
        map (\<lambda>k. ?n + k) [b + 1 ..< min (b + 5) (length lines)]"
      using upt_shift [of ?n "b + 1" "min (b + 5) (length lines)"]
      by (simp add: add.assoc min_add_distrib_right)
    have r2: "[?n + a ..< ?n + b] = map (\<lambda>k. ?n + k) [a ..< b]"
      by (rule upt_shift)
    have pa: "parse_jsonl f (pre @ lines) =
      (case find_summary lines [b + 1 ..< min (b + 5) (length lines)] of
         Inl e \<Rightarrow> Inl e
       | Inr s \<Rightarrow>
           (case collect f lines [a ..< b] [] of
              Inl e \<Rightarrow> Inl e
            | Inr c \<Rightarrow> Inr (Some (s, c))))"
      unfolding parse_jsonl_records [OF all, of f] la sa r1 r2 find_summary_shift collect_shift
      by (simp add: bp)
    have e: "(if bs = [] then 0 else last bs) = a" by (simp add: bs)
    show ?thesis unfolding pa 1 e by (rule refl)
  qed
  from 1 2 show ?thesis by blast
qed


theorem processing_range_witness:
  "parse_jsonl (\<lambda>v. lit ''None'')
     [boundary_record, message_record ''user'' (JStr (lit ''hello world'')), boundary_record] =
     Inr (Some ([], [lit ''[user]: hello world''])) \<and>
   parse_jsonl (\<lambda>v. lit ''None'')
     ([message_record ''assistant'' (JStr (lit ''an earlier answer'')), None] @
      [boundary_record, message_record ''user'' (JStr (lit ''hello world'')), boundary_record]) =
   parse_jsonl (\<lambda>v. lit ''None'')
     [boundary_record, message_record ''user'' (JStr (lit ''hello world'')), boundary_record]"
proof -
  let ?f = "\<lambda>v::json. lit ''None''"
  let ?pre = "[message_record ''assistant'' (JStr (lit ''an earlier answer'')), None]"
  let ?ls = "[boundary_record, message_record ''user'' (JStr (lit ''hello world'')), boundary_record]"
  have 1: "\<forall>l\<in>set ?pre. is_record l" by (simp add: message_record_facts)
  have 2: "\<forall>l\<in>set ?ls. is_record l" by (simp add: message_record_facts)
  have 3: "boundary_positions ?ls = [0] @ [2]"
    by (simp add: boundary_positions_Cons message_record_facts)
  note r = processing_range [OF 1 2 3, of ?f]
  have b: "turn ?f boundary_record = Inr None"
    by (simp add: turn_def boundary_record_def dict_get_def)
  have c: "collect ?f ?ls [0..<2] [] = Inr [lit ''[user]: hello world'']"
    by (simp add: upt_conv_Cons b sample_turn)
  have s: "find_summary ?ls [2 + 1..<min (2 + 5) (length ?ls)] = Inr []" by simp
  have "[0::nat] \<noteq> []" "(if [0::nat] = [] then 0 else last [0]) = (0::nat)" by simp_all
  with r have "parse_jsonl ?f ?ls =
      (case find_summary ?ls [2 + 1..<min (2 + 5) (length ?ls)] of
         Inl e \<Rightarrow> Inl e
       | Inr s \<Rightarrow>
           (case collect ?f ?ls [0 ..< 2] [] of
              Inl e \<Rightarrow> Inl e
            | Inr c \<Rightarrow> Inr (Some (s, c))))"
    and 4: "parse_jsonl ?f (?pre @ ?ls) = parse_jsonl ?f ?ls"
    by simp_all
  then have "parse_jsonl ?f ?ls = Inr (Some ([], [lit ''[user]: hello world'']))"
    unfolding s c by simp
  with 4 show ?thesis by simp
qed

text \<open>
  C6. Every turn that \<open>parse_jsonl\<close> returns comes from a line of the log and is
  \<open>[role]: \<close> followed by the extracted text of that line: by its first 2000 characters
  and the truncation marker when the text is longer than 2000 characters, by the text as
  it is when it has 2000 characters or fewer.
\<close>

theorem turn_text_truncation:
  assumes "parse_jsonl f lines = Inr (Some (summary, conversation))"
    and "t \<in> set conversation"
  shows "\<exists>i obj msg text. i < length lines \<and> lines ! i = Some (JObj obj) \<and>
    dict_get obj (lit ''message'') (JObj []) = JObj msg \<and>
    extract_text msg = Inr text \<and>
    t = lit ''['' @
        format_role f (dict_get msg (lit ''role'') (dict_get obj (lit ''type'') (JStr []))) @
        lit '']: '' @
        (if 2000 < length text then take 2000 text @ truncation_marker else text)"
proof -
  from assms(1) obtain bs where fb: "find_boundaries lines 0 [] = Inr bs"
    by (auto simp add: parse_jsonl_def split: sum.splits)
  from find_boundaries_Inr_records [OF fb] have rec: "\<forall>l\<in>set lines. is_record l" .
  let ?bs = "boundary_positions lines"
  from parse_jsonl_records [OF rec, of f] assms(1)
  have ne: "?bs \<noteq> []" and "collect f lines [start_idx ?bs ..< last ?bs] [] = Inr conversation"
    by (auto split: if_splits sum.splits)
  from collect_members [OF this(2) assms(2)]
  obtain i where i: "start_idx ?bs \<le> i" "i < last ?bs" "turn f (lines ! i) = Inr (Some t)"
    by auto
  from ne have "last ?bs \<in> set ?bs" by simp
  then have "last ?bs < length lines" by (rule boundary_positions_less)
  with i(2) have "i < length lines" by simp
  with turn_Some [OF i(3)] show ?thesis by blast
qed

theorem turn_text_truncation_witness:
  "\<exists>i obj msg text.
     i < length [message_record ''user'' (JStr (replicate 2001 120)), boundary_record] \<and>
     [message_record ''user'' (JStr (replicate 2001 120)), boundary_record] ! i = Some (JObj obj) \<and>
     dict_get obj (lit ''message'') (JObj []) = JObj msg \<and>
     extract_text msg = Inr text \<and>
     lit ''[user]: '' @ replicate 2000 120 @ truncation_marker =
       lit ''['' @
        format_role (\<lambda>v. lit ''None'')
          (dict_get msg (lit ''role'') (dict_get obj (lit ''type'') (JStr []))) @
        lit '']: '' @
        (if 2000 < length text then take 2000 text @ truncation_marker else text)"
proof -
  let ?f = "\<lambda>v::json. lit ''None''"
  let ?ls = "[message_record ''user'' (JStr (replicate 2001 120)), boundary_record]"
  have s: "strip (replicate 2001 120) = replicate 2001 120"
    by (rule strip_id) (simp_all add: is_space_def)
  have t: "turn ?f (message_record ''user'' (JStr (replicate 2001 120))) =
      Inr (Some (lit ''[user]: '' @ replicate 2000 120 @ truncation_marker))"
    by (simp add: turn_def message_record_def dict_get_def extract_text_def has_tool_use_def
        s format_role_def truncate_text_def Let_def lit_append)
  have b: "find_boundaries ?ls 0 [] = Inr [1]"
    by (simp add: message_record_def boundary_record_def dict_get_def)
  have p: "parse_jsonl ?f ?ls =
      Inr (Some ([], [lit ''[user]: '' @ replicate 2000 120 @ truncation_marker]))"
    by (simp add: parse_jsonl_def b start_idx_def t)
  have m: "lit ''[user]: '' @ replicate 2000 120 @ truncation_marker \<in>
      set [lit ''[user]: '' @ replicate 2000 120 @ truncation_marker]" by simp
  show ?thesis by (rule turn_text_truncation [OF p m])
qed

text \<open>
  C5, as the code has it. One step of the third loop at a record of type \<open>user\<close> or
  \<open>assistant\<close> whose role is \<open>user\<close> and whose text is not blank: the turn is left out
  when the text, as extracted and not trimmed, has fewer than 10 characters, and appended
  when it has 10 or more.
\<close>

theorem user_turn_length_threshold:
  assumes "lines ! i = Some (JObj obj)"
    and "dict_get obj (lit ''type'') (JStr []) = JStr (lit ''user'') \<or>
         dict_get obj (lit ''type'') (JStr []) = JStr (lit ''assistant'')"
    and "dict_get obj (lit ''message'') (JObj []) = JObj msg"
    and "dict_get msg (lit ''role'') (dict_get obj (lit ''type'') (JStr [])) = JStr (lit ''user'')"
    and "extract_text msg = Inr text" and "strip text \<noteq> []"
  shows "collect f lines [i] conversation =
    Inr (if length text < 10 then conversation
         else conversation @ [lit ''[user]: '' @ truncate_text 2000 text])"
proof -
  have "turn f (lines ! i) =
      Inr (if length text < 10 then None else Some (lit ''[user]: '' @ truncate_text 2000 text))"
    using assms by (auto simp add: turn_def Let_def format_role_def lit_append)
  then show ?thesis by simp
qed

theorem user_turn_length_threshold_witness:
  "collect (\<lambda>v. lit ''None'') [message_record ''user'' (JStr (lit ''0123456789''))] [0] [] =
     Inr [lit ''[user]: 0123456789''] \<and>
   collect (\<lambda>v. lit ''None'') [message_record ''user'' (JStr (lit ''  2345678''))] [0] [] =
     Inr []"
proof -
  let ?f = "\<lambda>v::json. lit ''None''"
  have t: "dict_get [(lit ''type'', JStr (lit ''user'')),
               (lit ''message'', JObj [(lit ''role'', JStr (lit ''user'')), (lit ''content'', c)])]
             (lit ''type'') (JStr []) = JStr (lit ''user'')" for c
    by (simp add: dict_get_def)
  have m: "dict_get [(lit ''type'', JStr (lit ''user'')),
               (lit ''message'', JObj [(lit ''role'', JStr (lit ''user'')), (lit ''content'', c)])]
             (lit ''message'') (JObj []) =
           JObj [(lit ''role'', JStr (lit ''user'')), (lit ''content'', c)]" for c
    by (simp add: dict_get_def)
  have r: "dict_get [(lit ''role'', JStr (lit ''user'')), (lit ''content'', c)] (lit ''role'') d =
           JStr (lit ''user'')" for c d
    by (simp add: dict_get_def)
  have x: "extract_text [(lit ''role'', JStr (lit ''user'')), (lit ''content'', JStr u)] = Inr u" for u
    by (simp add: extract_text_def dict_get_def)
  have s1: "strip (lit ''0123456789'') \<noteq> []" by (simp add: strip_def lit_def is_space_def)
  have s2: "strip (lit ''  2345678'') \<noteq> []" by (simp add: strip_def lit_def is_space_def)
  have 1: "collect ?f [message_record ''user'' (JStr (lit ''0123456789''))] [0] [] =
      Inr [lit ''[user]: 0123456789'']"
    using user_turn_length_threshold [of "[message_record ''user'' (JStr (lit ''0123456789''))]" 0
        _ _ "lit ''0123456789''" ?f "[]", OF _ disjI1 [OF t] m _ x s1]
    by (simp add: message_record_def r t truncate_text_def lit_append)
  have 2: "collect ?f [message_record ''user'' (JStr (lit ''  2345678''))] [0] [] = Inr []"
    using user_turn_length_threshold [of "[message_record ''user'' (JStr (lit ''  2345678''))]" 0
        _ _ "lit ''  2345678''" ?f "[]", OF _ disjI1 [OF t] m _ x s2]
    by (simp add: message_record_def r t)
  from 1 2 show ?thesis by simp
qed

text \<open>
  C5, as stated, fails: the text \<open>hi\<close> followed by eight spaces is not blank and has
  the trimmed length 2, and its turn is included.
\<close>

theorem short_trimmed_user_turn_included:
  "strip (lit ''hi        '') = lit ''hi'' \<and>
   length (strip (lit ''hi        '')) < 10 \<and>
   parse_jsonl (\<lambda>v. lit ''None'')
     [message_record ''user'' (JStr (lit ''hi        '')), boundary_record] =
   Inr (Some ([], [lit ''[user]: hi        '']))"
proof -
  let ?ls = "[message_record ''user'' (JStr (lit ''hi        '')), boundary_record]"
  have s: "strip (lit ''hi        '') = lit ''hi''"
    by (simp add: strip_def lit_def is_space_def)
  have t: "turn (\<lambda>v. lit ''None'') (message_record ''user'' (JStr (lit ''hi        ''))) =
      Inr (Some (lit ''[user]: hi        ''))"
    by (simp add: turn_def message_record_def dict_get_def extract_text_def has_tool_use_def
        s format_role_def truncate_text_def Let_def lit_append)
  have b: "find_boundaries ?ls 0 [] = Inr [1]"
    by (simp add: message_record_def boundary_record_def dict_get_def)
  have "parse_jsonl (\<lambda>v. lit ''None'') ?ls = Inr (Some ([], [lit ''[user]: hi        '']))"
    by (simp add: parse_jsonl_def b start_idx_def t)
  with s show ?thesis by simp
qed

end
